theory Spec2Isabelle
  imports Main
begin

section \<open>The multi-GPU launcher (launcher.py)\<close>

text \<open>
  The launcher probes the GPUs with nvidia-smi, selects one, puts the TensorRT engine
  compiled for that GPU at the active path (restoring a cached copy or building it), and
  starts the inference script on that GPU.

  The embedding passes the state of the run explicitly: the files, the lines waiting on
  standard input, and the trace of what the process has done so far (what it printed,
  which children it started, which files it copied). Everything outside the program is
  a field of the record \<open>world\<close>: the parent environment, the outcome of nvidia-smi,
  the children started with \<open>subprocess.run\<close>, and the library functions
  \<open>csv.reader\<close> and \<open>int\<close>.
\<close>

subsection \<open>Strings, exceptions, devices\<close>

text \<open>A Python \<open>str\<close> is a sequence of code points; \<open>py\<close> embeds a literal.\<close>

type_synonym pystr = "nat list"

abbreviation py :: "string \<Rightarrow> pystr" where
  "py s \<equiv> map of_char s"

type_synonym bytes = "char list"

datatype exn =
    FileNotFoundError
  | SameFileError
  | CalledProcessError int
  | ValueError
  | CsvError
  | EOFError
  | OSError
  | KeyboardInterrupt

text \<open>\<open>except Exception\<close> catches every exception of the model but
  \<open>KeyboardInterrupt\<close>, which derives from \<open>BaseException\<close> only.\<close>

fun is_Exception :: "exn \<Rightarrow> bool" where
  "is_Exception KeyboardInterrupt = False"
| "is_Exception _ = True"

text \<open>The dict built at lines 30-34.\<close>

record device =
  index :: int
  name :: pystr
  memory :: pystr

subsection \<open>Files, environment, trace\<close>

text \<open>
  The files are regular files, named by their path string: content and the metadata
  that \<open>shutil.copy2\<close> carries over. Directories, links and I/O failures are not
  modelled.
\<close>

record regular_file =
  content :: bytes
  mtime :: int

type_synonym filesystem = "pystr \<rightharpoonup> regular_file"

type_synonym env = "pystr \<rightharpoonup> pystr"

text \<open>One constructor per \<open>print\<close> statement of the source, with the values it
  interpolates.\<close>

datatype msg =
    FailedToQuery exn
  | FoundCached pystr
  | RestoringFrom pystr
  | NoEngineFound pystr
  | StartingCompilation
  | MayTakeMinutes
  | CompilationFailed
  | CachingNewEngine pystr
  | BuildFinishedNotFound
  | Launching int
  | NoGpusFound
  | GpuIndexNotFound int
  | DetectedHeader
  | GpuLine int pystr pystr
  | BlankLine
  | AutoSelecting pystr
  | InvalidIndex
  | PleaseEnterNumber
  | Selected int pystr

datatype event =
    Print msg
  | Prompt
  | Probe "pystr list"
  | Spawn "pystr list" env
  | Copy2 pystr pystr

record state =
  fs :: filesystem
  stdin :: "pystr list"
  trace :: "event list"

text \<open>
  \<open>smi\<close> is what \<open>subprocess.run\<close> of nvidia-smi gives: an exception raised before
  the command completes (\<open>FileNotFoundError\<close> when the tool is missing), or its return
  code and captured output; the command only reads. \<open>run\<close> is a child started with an
  environment: it may change the files, and ends with an exit code or with an exception
  raised in the parent (an operator interrupt, a failure to start).
\<close>

record world =
  executable :: pystr
  environ :: env
  smi :: "exn + int \<times> pystr"
  csv_reader :: "pystr \<Rightarrow> (exn + pystr list) list"
  py_int :: "pystr \<Rightarrow> int option"
  run :: "pystr list \<Rightarrow> env \<Rightarrow> filesystem \<Rightarrow> (exn + int) \<times> filesystem"

definition emit :: "event \<Rightarrow> state \<Rightarrow> state" where
  "emit e s = s\<lparr>trace := trace s @ [e]\<rparr>"

subsection \<open>Configuration paths (lines 11-14)\<close>

definition ENGINE_DIR :: pystr where
  "ENGINE_DIR = py ''./pretrained_weights/tensorrt''"

definition ACTIVE_ENGINE_NAME :: pystr where
  "ACTIVE_ENGINE_NAME = py ''unet_work.engine''"

definition BUILD_SCRIPT :: pystr where
  "BUILD_SCRIPT = py ''torch2trt.py''"

definition INFERENCE_SCRIPT :: pystr where
  "INFERENCE_SCRIPT = py ''inference_online.py''"

definition CUDA_VISIBLE_DEVICES :: pystr where
  "CUDA_VISIBLE_DEVICES = py ''CUDA_VISIBLE_DEVICES''"

subsection \<open>Library functions the launcher calls\<close>

text \<open>\<open>str.strip()\<close>: removes the code points for which \<open>str.isspace\<close> holds from both
  ends.\<close>

definition is_space :: "nat \<Rightarrow> bool" where
  "is_space c \<longleftrightarrow>
     (9 \<le> c \<and> c \<le> 13) \<or> (28 \<le> c \<and> c \<le> 32) \<or> c = 133 \<or> c = 160 \<or> c = 5760 \<or>
     (8192 \<le> c \<and> c \<le> 8202) \<or> c = 8232 \<or> c = 8233 \<or> c = 8239 \<or> c = 8287 \<or> c = 12288"

definition strip :: "pystr \<Rightarrow> pystr" where
  "strip s = rev (dropWhile is_space (rev (dropWhile is_space s)))"

text \<open>\<open>str(i)\<close> for an integer: its decimal digits, with a minus sign when negative.\<close>

fun dec_nat :: "nat \<Rightarrow> pystr" where
  "dec_nat n = (if n < 10 then [48 + n] else dec_nat (n div 10) @ [48 + n mod 10])"

declare dec_nat.simps [simp del]

definition str_int :: "int \<Rightarrow> pystr" where
  "str_int i = (if i < 0 then 45 # dec_nat (nat (- i)) else dec_nat (nat i))"

text \<open>\<open>os.path.join\<close> of two components (posixpath).\<close>

definition path_join :: "pystr \<Rightarrow> pystr \<Rightarrow> pystr" where
  "path_join a b =
     (if b \<noteq> [] \<and> hd b = 47 then b
      else if a = [] \<or> last a = 47 then a @ b
      else a @ [47] @ b)"

definition exists :: "state \<Rightarrow> pystr \<Rightarrow> bool" where
  "exists s p \<longleftrightarrow> fs s p \<noteq> None"

text \<open>\<open>shutil.copy2(src, dst)\<close>: content and metadata of \<open>src\<close> replace \<open>dst\<close>.\<close>

definition copy2 :: "pystr \<Rightarrow> pystr \<Rightarrow> state \<Rightarrow> (exn + unit) \<times> state" where
  "copy2 src dst s =
     (case fs s src of
        None \<Rightarrow> (Inl FileNotFoundError, s)
      | Some f \<Rightarrow>
          if src = dst then (Inl SameFileError, s)
          else (Inr (), emit (Copy2 src dst) (s\<lparr>fs := (fs s)(dst \<mapsto> f)\<rparr>)))"

subsection \<open>get_gpus_from_nvidia_smi (lines 16-38)\<close>

definition smi_cmd :: "pystr list" where
  "smi_cmd = [py ''nvidia-smi'', py ''--query-gpu=index,name,memory.total'',
              py ''--format=csv,noheader'']"

text \<open>
  The loop of lines 28-34 over the rows the reader yields. The reader is lazy: an item
  \<open>Inl e\<close> is the reader raising \<open>e\<close> when asked for that row. \<open>row[0]\<close>, \<open>row[1]\<close>
  and \<open>row[2]\<close> are read only when the row has three fields at least.
\<close>

fun parse_rows :: "(pystr \<Rightarrow> int option) \<Rightarrow> (exn + pystr list) list \<Rightarrow> device list
    \<Rightarrow> exn + device list" where
  "parse_rows to_int [] gpus = Inr gpus"
| "parse_rows to_int (Inl e # rest) gpus = Inl e"
| "parse_rows to_int (Inr row # rest) gpus =
     (if length row < 3 then parse_rows to_int rest gpus
      else case to_int (strip (row ! 0)) of
             None \<Rightarrow> Inl ValueError
           | Some i \<Rightarrow>
               parse_rows to_int rest
                 (gpus @ [\<lparr>index = i, name = strip (row ! 1), memory = strip (row ! 2)\<rparr>]))"

text \<open>The body of the \<open>try\<close> (lines 23-35): the command with \<open>check=True\<close>, then the
  parse.\<close>

definition query_gpus :: "world \<Rightarrow> exn + device list" where
  "query_gpus w =
     (case smi w of
        Inl e \<Rightarrow> Inl e
      | Inr (rc, out) \<Rightarrow>
          if rc \<noteq> 0 then Inl (CalledProcessError rc)
          else parse_rows (py_int w) (csv_reader w out) [])"

definition get_gpus_from_nvidia_smi :: "world \<Rightarrow> state \<Rightarrow> (exn + device list) \<times> state" where
  "get_gpus_from_nvidia_smi w s =
     (let s1 = emit (Probe smi_cmd) s
      in case query_gpus w of
           Inr gpus \<Rightarrow> (Inr gpus, s1)
         | Inl e \<Rightarrow>
             if is_Exception e then (Inr [], emit (Print (FailedToQuery e)) s1)
             else (Inl e, s1))"

subsection \<open>get_sanitized_name (lines 40-42)\<close>

text \<open>The class \<open>[^a-zA-Z0-9]\<close> matches one code point outside the three ASCII ranges;
  \<open>re.sub\<close> replaces each match by an underscore.\<close>

definition is_alnum :: "nat \<Rightarrow> bool" where
  "is_alnum c \<longleftrightarrow> (97 \<le> c \<and> c \<le> 122) \<or> (65 \<le> c \<and> c \<le> 90) \<or> (48 \<le> c \<and> c \<le> 57)"

definition get_sanitized_name :: "pystr \<Rightarrow> pystr" where
  "get_sanitized_name nm = map (\<lambda>c. if is_alnum c then c else 95) nm"

subsection \<open>manage_engine (lines 44-84)\<close>

definition cached_engine_filename :: "device \<Rightarrow> pystr" where
  "cached_engine_filename gpu_info =
     py ''unet_work_'' @ get_sanitized_name (name gpu_info) @ py ''.engine''"

definition active_engine_path :: pystr where
  "active_engine_path = path_join ENGINE_DIR ACTIVE_ENGINE_NAME"

definition cached_engine_path :: "device \<Rightarrow> pystr" where
  "cached_engine_path gpu_info = path_join ENGINE_DIR (cached_engine_filename gpu_info)"

text \<open>Lines 67-68 and 90-91: a copy of the parent environment with the one variable
  set.\<close>

definition child_env :: "world \<Rightarrow> int \<Rightarrow> env" where
  "child_env w gpu_index = (environ w)(CUDA_VISIBLE_DEVICES \<mapsto> str_int gpu_index)"

definition build_cmd :: "world \<Rightarrow> pystr list" where
  "build_cmd w = [executable w, BUILD_SCRIPT]"

definition manage_engine :: "world \<Rightarrow> device \<Rightarrow> state \<Rightarrow> (exn + bool) \<times> state" where
  "manage_engine w gpu_info s =
     (if exists s (cached_engine_path gpu_info) then
        (let s1 = emit (Print (FoundCached (name gpu_info))) s;
             s2 = emit (Print (RestoringFrom (cached_engine_filename gpu_info))) s1
         in case copy2 (cached_engine_path gpu_info) active_engine_path s2 of
              (Inl e, s3) \<Rightarrow> (Inl e, s3)
            | (Inr u, s3) \<Rightarrow> (Inr True, s3))
      else
        (let s1 = emit (Print (NoEngineFound (name gpu_info))) s;
             s2 = emit (Print StartingCompilation) s1;
             s3 = emit (Print MayTakeMinutes) s2;
             env = child_env w (index gpu_info);
             s4 = emit (Spawn (build_cmd w) env) s3
         in case run w (build_cmd w) env (fs s4) of
              (Inl e, fs') \<Rightarrow> (Inl e, s4\<lparr>fs := fs'\<rparr>)
            | (Inr rc, fs') \<Rightarrow>
                (let s5 = s4\<lparr>fs := fs'\<rparr>
                 in if rc \<noteq> 0 then (Inr False, emit (Print CompilationFailed) s5)
                    else if exists s5 active_engine_path then
                      (let s6 = emit (Print (CachingNewEngine (cached_engine_filename gpu_info))) s5
                       in case copy2 active_engine_path (cached_engine_path gpu_info) s6 of
                            (Inl e, s7) \<Rightarrow> (Inl e, s7)
                          | (Inr u, s7) \<Rightarrow> (Inr True, s7))
                    else (Inr False, emit (Print BuildFinishedNotFound) s5))))"

subsection \<open>run_inference (lines 86-98)\<close>

definition inference_cmd :: "world \<Rightarrow> pystr list \<Rightarrow> pystr list" where
  "inference_cmd w extra_args = [executable w, INFERENCE_SCRIPT] @ extra_args"

definition run_inference :: "world \<Rightarrow> int \<Rightarrow> pystr list \<Rightarrow> state \<Rightarrow> (exn + unit) \<times> state" where
  "run_inference w gpu_index extra_args s =
     (let s1 = emit (Print (Launching gpu_index)) s;
          env = child_env w gpu_index;
          cmd = inference_cmd w extra_args;
          s2 = emit (Spawn cmd env) s1
      in case run w cmd env (fs s2) of
           (Inr rc, fs') \<Rightarrow> (Inr (), s2\<lparr>fs := fs'\<rparr>)
         | (Inl e, fs') \<Rightarrow>
             if e = KeyboardInterrupt then (Inr (), s2\<lparr>fs := fs'\<rparr>)
             else (Inl e, s2\<lparr>fs := fs'\<rparr>))"

subsection \<open>main (lines 100-160)\<close>

text \<open>How the process ends: \<open>main\<close> returns, \<open>sys.exit(n)\<close>, or an exception nobody
  caught. The exit status of the interpreter is 0, \<open>n\<close>, and non-zero (1 here).\<close>

datatype outcome = Returned | SysExit int | Raised exn

fun exit_status :: "outcome \<Rightarrow> int" where
  "exit_status Returned = 0"
| "exit_status (SysExit n) = n"
| "exit_status (Raised e) = 1"

text \<open>The loop of lines 117-120 and 139-142: the first device with that index.\<close>

definition find_gpu :: "int \<Rightarrow> device list \<Rightarrow> device option" where
  "find_gpu idx gpus = find (\<lambda>g. index g = idx) gpus"

text \<open>
  The \<open>while True\<close> loop of lines 136-146, one iteration per line read. \<open>input\<close>
  writes the prompt, and raises \<open>EOFError\<close>, which the loop does not catch, when
  standard input has no line left.
\<close>

fun prompt_loop :: "world \<Rightarrow> device list \<Rightarrow> pystr list \<Rightarrow> event list
    \<Rightarrow> (exn + device) \<times> pystr list \<times> event list" where
  "prompt_loop w gpus [] tr = (Inl EOFError, [], tr @ [Prompt])"
| "prompt_loop w gpus (l # rest) tr =
     (case py_int w l of
        None \<Rightarrow> prompt_loop w gpus rest (tr @ [Prompt, Print PleaseEnterNumber])
      | Some idx \<Rightarrow>
          (case find_gpu idx gpus of
             Some g \<Rightarrow> (Inr g, rest, tr @ [Prompt])
           | None \<Rightarrow> prompt_loop w gpus rest (tr @ [Prompt, Print InvalidIndex])))"

text \<open>Lines 126-146, entered when no device was selected on the command line.\<close>

definition interactive_select :: "world \<Rightarrow> device list \<Rightarrow> state \<Rightarrow> (exn + device) \<times> state" where
  "interactive_select w gpus s =
     (let s1 = s\<lparr>trace := trace s @ [Print DetectedHeader]
                    @ map (\<lambda>g. Print (GpuLine (index g) (name g) (memory g))) gpus
                    @ [Print BlankLine]\<rparr>
      in if length gpus = 1 then (Inr (hd gpus), emit (Print (AutoSelecting (name (hd gpus)))) s1)
         else case prompt_loop w gpus (stdin s1) (trace s1) of
                (r, rest, tr) \<Rightarrow> (r, s1\<lparr>stdin := rest, trace := tr\<rparr>))"

text \<open>Lines 155-158: the arguments passed on, with the acceleration flag added when
  no element of the list is the flag.\<close>

definition pass_args :: "pystr list \<Rightarrow> pystr list" where
  "pass_args inference_args =
     (if py ''--acceleration'' \<notin> set inference_args
      then inference_args @ [py ''--acceleration'', py ''tensorrt'']
      else inference_args)"

text \<open>Lines 148-160, with the device selected.\<close>

definition engine_and_launch :: "world \<Rightarrow> device \<Rightarrow> pystr list \<Rightarrow> state \<Rightarrow> outcome \<times> state" where
  "engine_and_launch w selected_gpu inference_args s =
     (let s1 = emit (Print (Selected (index selected_gpu) (name selected_gpu))) s
      in case manage_engine w selected_gpu s1 of
           (Inl e, s2) \<Rightarrow> (Raised e, s2)
         | (Inr False, s2) \<Rightarrow> (SysExit 1, s2)
         | (Inr True, s2) \<Rightarrow>
             (case run_inference w (index selected_gpu) (pass_args inference_args) s2 of
                (Inl e, s3) \<Rightarrow> (Raised e, s3)
              | (Inr u, s3) \<Rightarrow> (Returned, s3)))"

text \<open>\<open>main\<close>, after \<open>parse_args\<close>: \<open>gpu\<close> is \<open>args.gpu\<close> (\<open>None\<close> when the option is
  absent) and \<open>inference_args\<close> the remainder of the command line.\<close>

definition main :: "world \<Rightarrow> int option \<Rightarrow> pystr list \<Rightarrow> state \<Rightarrow> outcome \<times> state" where
  "main w gpu inference_args s =
     (case get_gpus_from_nvidia_smi w s of
        (Inl e, s1) \<Rightarrow> (Raised e, s1)
      | (Inr gpus, s1) \<Rightarrow>
          if gpus = [] then (Returned, emit (Print NoGpusFound) s1)
          else
            (case gpu of
               Some i \<Rightarrow>
                 (case find_gpu i gpus of
                    None \<Rightarrow> (Returned, emit (Print (GpuIndexNotFound i)) s1)
                  | Some g \<Rightarrow> engine_and_launch w g inference_args s1)
             | None \<Rightarrow>
                 (case interactive_select w gpus s1 of
                    (Inl e, s2) \<Rightarrow> (Raised e, s2)
                  | (Inr g, s2) \<Rightarrow> engine_and_launch w g inference_args s2)))"

subsection \<open>Observations on a run\<close>

text \<open>What a call added to the trace, the children it started (command and environment),
  the copies it made, whether the engine step reported a failure (lines 74 and 83), and
  the children started on the inference script.\<close>

definition new_events :: "state \<Rightarrow> state \<Rightarrow> event list" where
  "new_events s s' = drop (length (trace s)) (trace s')"

fun spawns :: "event list \<Rightarrow> (pystr list \<times> env) list" where
  "spawns [] = []"
| "spawns (Spawn cmd env # evs) = (cmd, env) # spawns evs"
| "spawns (_ # evs) = spawns evs"

fun copies :: "event list \<Rightarrow> (pystr \<times> pystr) list" where
  "copies [] = []"
| "copies (Copy2 src dst # evs) = (src, dst) # copies evs"
| "copies (_ # evs) = copies evs"

fun engine_failed :: "event list \<Rightarrow> bool" where
  "engine_failed [] = False"
| "engine_failed (Print CompilationFailed # evs) = True"
| "engine_failed (Print BuildFinishedNotFound # evs) = True"
| "engine_failed (_ # evs) = engine_failed evs"

definition inference_launches :: "event list \<Rightarrow> (pystr list \<times> env) list" where
  "inference_launches evs =
     filter (\<lambda>(cmd, env). 2 \<le> length cmd \<and> cmd ! 1 = INFERENCE_SCRIPT) (spawns evs)"

text \<open>The events of the three paths: restore (lines 56-58), build (lines 62-72),
  launch (lines 88-96).\<close>

definition hit_events :: "device \<Rightarrow> event list" where
  "hit_events g =
     [Print (FoundCached (name g)), Print (RestoringFrom (cached_engine_filename g)),
      Copy2 (cached_engine_path g) active_engine_path]"

definition build_events :: "world \<Rightarrow> device \<Rightarrow> event list" where
  "build_events w g =
     [Print (NoEngineFound (name g)), Print StartingCompilation, Print MayTakeMinutes,
      Spawn (build_cmd w) (child_env w (index g))]"

definition persist_events :: "device \<Rightarrow> event list" where
  "persist_events g =
     [Print (CachingNewEngine (cached_engine_filename g)),
      Copy2 active_engine_path (cached_engine_path g)]"

definition launch_events :: "world \<Rightarrow> int \<Rightarrow> pystr list \<Rightarrow> event list" where
  "launch_events w i extra_args =
     [Print (Launching i), Spawn (inference_cmd w extra_args) (child_env w i)]"

text \<open>The events that can precede the selection of a device.\<close>

fun selection_event :: "event \<Rightarrow> bool" where
  "selection_event (Probe c) = True"
| "selection_event Prompt = True"
| "selection_event (Print (FailedToQuery e)) = True"
| "selection_event (Print DetectedHeader) = True"
| "selection_event (Print (GpuLine i n m)) = True"
| "selection_event (Print BlankLine) = True"
| "selection_event (Print (AutoSelecting n)) = True"
| "selection_event (Print InvalidIndex) = True"
| "selection_event (Print PleaseEnterNumber) = True"
| "selection_event (Print NoGpusFound) = True"
| "selection_event (Print (GpuIndexNotFound i)) = True"
| "selection_event _ = False"



text \<open>An assumption on the world: a child running the inference script ends with an exit
  code or with an operator interrupt (it never fails to start).\<close>

definition inference_starts :: "world \<Rightarrow> bool" where
  "inference_starts w \<longleftrightarrow>
     (\<forall>extra_args env files e.
        fst (run w (inference_cmd w extra_args) env files) = Inl e \<longrightarrow> e = KeyboardInterrupt)"

subsection \<open>A host with two GPUs\<close>

text \<open>
  An RTX 3090 at index 0 and an H100 at index 1, no engine on disk. The report of
  nvidia-smi ends with an empty line, for which the reader yields a row without fields.
  The build script writes the active engine and exits with 0; the inference script
  exits with 3.
\<close>

definition rtx3090 :: device where
  "rtx3090 = \<lparr>index = 0, name = py ''RTX 3090'', memory = py ''24576 MiB''\<rparr>"

definition h100 :: device where
  "h100 = \<lparr>index = 1, name = py ''H100'', memory = py ''81559 MiB''\<rparr>"

definition engine0 :: regular_file where
  "engine0 = \<lparr>content = ''engine-bytes'', mtime = 7\<rparr>"

definition demo_run :: "pystr list \<Rightarrow> env \<Rightarrow> filesystem \<Rightarrow> (exn + int) \<times> filesystem" where
  "demo_run cmd env files =
     (if cmd = [py ''python3'', BUILD_SCRIPT] then (Inr 0, files(active_engine_path \<mapsto> engine0))
      else (Inr 3, files))"

definition demo_rows :: "pystr list list" where
  "demo_rows =
     [[py ''0'', py '' RTX 3090'', py '' 24576 MiB''],
      [py ''1'', py '' H100'', py '' 81559 MiB''],
      []]"

definition demo_world :: world where
  "demo_world =
     \<lparr>executable = py ''python3'',
      environ = [py ''HOME'' \<mapsto> py ''/root''],
      smi = Inr (0, py ''0, RTX 3090, 24576 MiB'' @ [10] @ py ''1, H100, 81559 MiB'' @ [10, 10]),
      csv_reader = (\<lambda>out. map Inr demo_rows),
      py_int = map_of [(py ''0'', 0), (py ''1'', 1)],
      run = demo_run\<rparr>"

definition demo_start :: state where
  "demo_start = \<lparr>fs = Map.empty, stdin = [], trace = []\<rparr>"

text \<open>The state after \<open>manage_engine\<close> has built and cached the engine of the H100.\<close>

definition demo_built :: state where
  "demo_built =
     \<lparr>fs = [active_engine_path \<mapsto> engine0, cached_engine_path h100 \<mapsto> engine0],
      stdin = [],
      trace = build_events demo_world h100 @ persist_events h100\<rparr>"


text \<open>The same host with a build that exits with 1, with children that the operator
  interrupts, with nvidia-smi missing, with nvidia-smi exiting with 9, and with a first
  field that is not a number.\<close>

definition failing_world :: world where
  "failing_world = demo_world\<lparr>run := (\<lambda>cmd env files. (Inr 1, files))\<rparr>"

definition interrupted_world :: world where
  "interrupted_world = demo_world\<lparr>run := (\<lambda>cmd env files. (Inl KeyboardInterrupt, files))\<rparr>"




section \<open>Auxiliary facts\<close>

subsection \<open>Traces\<close>

lemma spawns_append [simp]: "spawns (xs @ ys) = spawns xs @ spawns ys"
  by (induction xs rule: spawns.induct) auto

lemma copies_append [simp]: "copies (xs @ ys) = copies xs @ copies ys"
  by (induction xs rule: copies.induct) auto

lemma engine_failed_append [simp]:
  "engine_failed (xs @ ys) \<longleftrightarrow> engine_failed xs \<or> engine_failed ys"
  by (induction xs rule: engine_failed.induct) auto

lemma inference_launches_append [simp]:
  "inference_launches (xs @ ys) = inference_launches xs @ inference_launches ys"
  by (simp add: inference_launches_def)

lemma inference_launches_skip:
  "inference_launches [] = []"
  "inference_launches (Print m # evs) = inference_launches evs"
  "inference_launches (Probe c # evs) = inference_launches evs"
  "inference_launches (Copy2 src dst # evs) = inference_launches evs"
  "inference_launches (Prompt # evs) = inference_launches evs"
  by (simp_all add: inference_launches_def)

lemma new_events_append: "trace s' = trace s @ evs \<Longrightarrow> new_events s s' = evs"
  by (simp add: new_events_def)

lemma selection_events_quiet:
  "list_all selection_event evs \<Longrightarrow>
     spawns evs = [] \<and> copies evs = [] \<and> \<not> engine_failed evs \<and> inference_launches evs = []"
proof (induction evs)
  case Nil
  show ?case by (simp add: inference_launches_def)
next
  case (Cons e evs)
  then show ?case
    by (cases e rule: selection_event.cases) (auto simp: inference_launches_def)
qed

lemma gpu_lines_quiet:
  "list_all selection_event (map (\<lambda>g. Print (GpuLine (index g) (name g) (memory g))) gpus)"
  by (simp add: list_all_iff)

subsection \<open>Strings and paths\<close>




lemma sanitized_chars: "c \<in> set (get_sanitized_name nm) \<Longrightarrow> is_alnum c \<or> c = 95"
  by (auto simp: get_sanitized_name_def)

lemma cached_engine_path_eq:
  "cached_engine_path g =
     py ''./pretrained_weights/tensorrt/unet_work_'' @ get_sanitized_name (name g) @ py ''.engine''"
  by (simp add: cached_engine_path_def path_join_def ENGINE_DIR_def cached_engine_filename_def)

lemma active_engine_path_eq:
  "active_engine_path = py ''./pretrained_weights/tensorrt/unet_work.engine''"
  by (simp add: active_engine_path_def path_join_def ENGINE_DIR_def ACTIVE_ENGINE_NAME_def)

lemma active_neq_cached: "active_engine_path \<noteq> cached_engine_path g"
  by (simp add: active_engine_path_eq cached_engine_path_eq)


subsection \<open>The probe\<close>



lemma parse_rows_Inl:
  "parse_rows to_int items gpus = Inl e \<Longrightarrow> e = ValueError \<or> Inl e \<in> set items"
  by (induction to_int items gpus rule: parse_rows.induct) (auto split: if_splits option.splits)



lemma probe_effect:
  assumes "get_gpus_from_nvidia_smi w s = (r, s1)"
  shows "\<exists>evs. s1 = s\<lparr>trace := trace s @ evs\<rparr> \<and> list_all selection_event evs"
  using assms
  by (auto simp: get_gpus_from_nvidia_smi_def emit_def Let_def split: sum.splits if_splits)

subsection \<open>The selection\<close>

lemma find_gpu_None: "find_gpu i gpus = None \<longleftrightarrow> (\<forall>g \<in> set gpus. index g \<noteq> i)"
  by (auto simp: find_gpu_def find_None_iff)

lemma find_gpu_Some: "find_gpu i gpus = Some g \<Longrightarrow> g \<in> set gpus \<and> index g = i"
  by (auto simp: find_gpu_def find_Some_iff)

lemma prompt_loop_effect:
  "prompt_loop w gpus ins tr = (r, rest, tr') \<Longrightarrow>
     \<exists>evs. tr' = tr @ evs \<and> list_all selection_event evs \<and> (\<forall>g. r = Inr g \<longrightarrow> g \<in> set gpus)"
proof (induction w gpus ins tr rule: prompt_loop.induct)
  case (1 w gpus tr)
  then show ?case by auto
next
  case (2 w gpus l rest' tr)
  then show ?case
    by (fastforce split: option.splits dest: find_gpu_Some)
qed

lemma interactive_select_effect:
  assumes "interactive_select w gpus s = (r, s2)" and "gpus \<noteq> []"
  shows "\<exists>evs ins. s2 = s\<lparr>stdin := ins, trace := trace s @ evs\<rparr> \<and> list_all selection_event evs \<and>
           (\<forall>g. r = Inr g \<longrightarrow> g \<in> set gpus)"
proof (cases "length gpus = 1")
  case True
  with assms gpu_lines_quiet [of gpus] show ?thesis
    by (auto simp: interactive_select_def emit_def Let_def intro!: exI [of _ "stdin s"])
next
  case False
  let ?shown = "Print DetectedHeader #
    map (\<lambda>g. Print (GpuLine (index g) (name g) (memory g))) gpus @ [Print BlankLine]"
  obtain r' rest tr' where p: "prompt_loop w gpus (stdin s) (trace s @ ?shown) = (r', rest, tr')"
    by (metis prod_cases3)
  from prompt_loop_effect [OF p] obtain evs where
    e: "tr' = (trace s @ ?shown) @ evs" "list_all selection_event evs"
       "\<forall>g. r' = Inr g \<longrightarrow> g \<in> set gpus"
    by blast
  from False assms p have "r = r'" "s2 = s\<lparr>stdin := rest, trace := tr'\<rparr>"
    by (auto simp: interactive_select_def Let_def)
  with e gpu_lines_quiet [of gpus] show ?thesis
    by (intro exI [of _ "?shown @ evs"] exI [of _ rest]) auto
qed

subsection \<open>The engine step\<close>

lemma manage_engine_hit:
  assumes "fs s (cached_engine_path g) = Some f"
  shows "manage_engine w g s =
    (Inr True, s\<lparr>fs := (fs s)(active_engine_path \<mapsto> f), trace := trace s @ hit_events g\<rparr>)"
  using assms active_neq_cached [of g]
  by (simp add: manage_engine_def exists_def copy2_def emit_def hit_events_def)

lemma manage_engine_miss:
  assumes "fs s (cached_engine_path g) = None"
    and "run w (build_cmd w) (child_env w (index g)) (fs s) = (pr, fs')"
  shows "manage_engine w g s =
    (case pr of
       Inl e \<Rightarrow> (Inl e, s\<lparr>fs := fs', trace := trace s @ build_events w g\<rparr>)
     | Inr rc \<Rightarrow>
         if rc \<noteq> 0
         then (Inr False,
           s\<lparr>fs := fs', trace := trace s @ build_events w g @ [Print CompilationFailed]\<rparr>)
         else (case fs' active_engine_path of
                 None \<Rightarrow> (Inr False,
                   s\<lparr>fs := fs', trace := trace s @ build_events w g @ [Print BuildFinishedNotFound]\<rparr>)
               | Some f \<Rightarrow> (Inr True,
                   s\<lparr>fs := fs'(cached_engine_path g \<mapsto> f),
                     trace := trace s @ build_events w g @ persist_events g\<rparr>)))"
  using assms active_neq_cached [of g]
  by (simp add: manage_engine_def exists_def copy2_def emit_def build_events_def persist_events_def
      Let_def split: sum.splits option.splits)

lemma hit_events_spawns: "spawns (hit_events g) = []"
  by (simp add: hit_events_def)

lemma build_events_spawns: "spawns (build_events w g) = [(build_cmd w, child_env w (index g))]"
  by (simp add: build_events_def)

lemma build_not_inference: "inference_launches (build_events w g) = []"
  by (simp add: inference_launches_def build_events_def build_cmd_def BUILD_SCRIPT_def
      INFERENCE_SCRIPT_def)

lemma build_events_not_failed: "\<not> engine_failed (build_events w g)"
  by (simp add: build_events_def)

lemma manage_engine_effect:
  assumes "manage_engine w g s = (r, s')"
  shows "\<exists>evs fs'. s' = s\<lparr>fs := fs', trace := trace s @ evs\<rparr> \<and>
           set (spawns evs) \<subseteq> {(build_cmd w, child_env w (index g))} \<and>
           inference_launches evs = [] \<and> (engine_failed evs \<longleftrightarrow> r = Inr False)"
proof (cases "fs s (cached_engine_path g)")
  case (Some f)
  from assms show ?thesis
    unfolding manage_engine_hit [OF Some]
    by (intro exI [of _ "hit_events g"] exI [of _ "(fs s)(active_engine_path \<mapsto> f)"])
       (auto simp: hit_events_def inference_launches_def)
next
  case None
  obtain pr fs' where r: "run w (build_cmd w) (child_env w (index g)) (fs s) = (pr, fs')"
    by (cases "run w (build_cmd w) (child_env w (index g)) (fs s)")
  note b = build_events_spawns [of w g] build_events_not_failed [of w g] build_not_inference [of w g]
  note m = assms [unfolded manage_engine_miss [OF None r]]
  show ?thesis
  proof (cases pr)
    case (Inl e)
    with m b show ?thesis
      by (intro exI [of _ "build_events w g"] exI [of _ fs']) auto
  next
    case (Inr rc)
    show ?thesis
    proof (cases "rc \<noteq> 0")
      case True
      with m b Inr show ?thesis
        by (intro exI [of _ "build_events w g @ [Print CompilationFailed]"] exI [of _ fs'])
           (auto simp: inference_launches_def)
    next
      case False
      show ?thesis
      proof (cases "fs' active_engine_path")
        case None
        with m b Inr False show ?thesis
          by (intro exI [of _ "build_events w g @ [Print BuildFinishedNotFound]"] exI [of _ fs'])
             (auto simp: inference_launches_def)
      next
        case (Some f)
        with m b Inr False show ?thesis
          by (intro exI [of _ "build_events w g @ persist_events g"]
                exI [of _ "fs'(cached_engine_path g \<mapsto> f)"])
             (auto simp: inference_launches_def persist_events_def)
      qed
    qed
  qed
qed

subsection \<open>The launch\<close>

lemma run_inference_effect:
  assumes "run w (inference_cmd w extra_args) (child_env w i) (fs s) = (pr, fs')"
  shows "run_inference w i extra_args s =
    (case pr of Inr rc \<Rightarrow> Inr () | Inl e \<Rightarrow> if e = KeyboardInterrupt then Inr () else Inl e,
     s\<lparr>fs := fs', trace := trace s @ launch_events w i extra_args\<rparr>)"
  using assms
  by (simp add: run_inference_def emit_def Let_def launch_events_def split: sum.splits)

lemma launch_is_inference:
  "inference_launches (launch_events w i extra_args) = [(inference_cmd w extra_args, child_env w i)]"
  by (simp add: inference_launches_def launch_events_def inference_cmd_def)

lemma engine_and_launch_effect:
  assumes "engine_and_launch w g inference_args s = (out, s')"
  shows "\<exists>evs fs'. s' = s\<lparr>fs := fs', trace := trace s @ Print (Selected (index g) (name g)) # evs\<rparr> \<and>
           (\<forall>(cmd, env) \<in> set (spawns evs). env = child_env w (index g)) \<and>
           set (inference_launches evs) \<subseteq>
             {(inference_cmd w (pass_args inference_args), child_env w (index g))} \<and>
           (engine_failed evs \<longrightarrow> out = SysExit 1 \<and> inference_launches evs = []) \<and>
           (inference_launches evs \<noteq> [] \<and> inference_starts w \<longrightarrow> out = Returned)"
proof -
  let ?s1 = "emit (Print (Selected (index g) (name g))) s"
  obtain r s2 where m: "manage_engine w g ?s1 = (r, s2)"
    by (cases "manage_engine w g ?s1")
  from manage_engine_effect [OF m] obtain evs fs2 where
    e: "s2 = ?s1\<lparr>fs := fs2, trace := trace ?s1 @ evs\<rparr>"
       "set (spawns evs) \<subseteq> {(build_cmd w, child_env w (index g))}"
       "inference_launches evs = []" "engine_failed evs \<longleftrightarrow> r = Inr False"
    by blast
  show ?thesis
  proof (cases "r = Inr True")
    case False
    with assms m have "s' = s2" "out = SysExit 1 \<or> (\<exists>e. out = Raised e \<and> r = Inl e)"
      by (auto simp: engine_and_launch_def Let_def split: sum.splits bool.splits)
    with e show ?thesis
      by (intro exI [of _ evs] exI [of _ fs2]) (auto simp: emit_def)
  next
    case True
    obtain pr fs3 where
      r: "run w (inference_cmd w (pass_args inference_args)) (child_env w (index g)) (fs s2) = (pr, fs3)"
      by (cases "run w (inference_cmd w (pass_args inference_args)) (child_env w (index g)) (fs s2)")
    let ?l = "launch_events w (index g) (pass_args inference_args)"
    from assms m True have o: "s' = s2\<lparr>fs := fs3, trace := trace s2 @ ?l\<rparr>"
        "out = (case pr of Inr rc \<Rightarrow> Returned
                | Inl e \<Rightarrow> if e = KeyboardInterrupt then Returned else Raised e)"
      by (auto simp: engine_and_launch_def Let_def run_inference_effect [OF r] split: sum.splits)
    have "out = Returned" if a: "inference_starts w"
    proof -
      have "e = KeyboardInterrupt" if "pr = Inl e" for e
      proof -
        from r that
        have "fst (run w (inference_cmd w (pass_args inference_args)) (child_env w (index g)) (fs s2))
                = Inl e"
          by simp
        with a show ?thesis unfolding inference_starts_def by blast
      qed
      with o(2) show ?thesis by (auto split: sum.splits)
    qed
    moreover have "\<not> engine_failed (evs @ ?l)"
      using e(4) True by (simp add: launch_events_def)
    moreover have "\<forall>(cmd, env) \<in> set (spawns (evs @ ?l)). env = child_env w (index g)"
      using e(2) by (auto simp: launch_events_def)
    moreover have "set (inference_launches (evs @ ?l)) \<subseteq>
             {(inference_cmd w (pass_args inference_args), child_env w (index g))}"
      using e(3) by (simp add: launch_is_inference)
    ultimately show ?thesis
      using o(1) e(1)
      by (intro exI [of _ "evs @ ?l"] exI [of _ fs3]) (auto simp: emit_def)
  qed
qed

subsection \<open>A run of main\<close>

text \<open>Either no device is selected and the run only probes, prompts and prints, or the
  run continues with lines 148-160 for a probed device.\<close>

lemma main_effect:
  assumes "main w gpu inference_args s = (out, s')"
  shows "(\<exists>evs ins. s' = s\<lparr>stdin := ins, trace := trace s @ evs\<rparr> \<and> list_all selection_event evs \<and>
            (out = Returned \<or> (\<exists>e. out = Raised e))) \<or>
         (\<exists>g gpus evs s0 ins. s0 = s\<lparr>stdin := ins, trace := trace s @ evs\<rparr> \<and>
            list_all selection_event evs \<and>
            fst (get_gpus_from_nvidia_smi w s) = Inr gpus \<and> g \<in> set gpus \<and>
            engine_and_launch w g inference_args s0 = (out, s'))"
proof -
  obtain r s1 where p: "get_gpus_from_nvidia_smi w s = (r, s1)"
    by (cases "get_gpus_from_nvidia_smi w s")
  from probe_effect [OF p] obtain evs1 where
    e1: "s1 = s\<lparr>trace := trace s @ evs1\<rparr>" "list_all selection_event evs1"
    by blast
  show ?thesis
  proof (cases r)
    case (Inl e)
    with assms p e1 show ?thesis
      by (intro disjI1 exI [of _ evs1] exI [of _ "stdin s"]) (auto simp: main_def)
  next
    case (Inr gpus)
    show ?thesis
    proof (cases "gpus = []")
      case True
      with assms p e1 Inr show ?thesis
        by (intro disjI1 exI [of _ "evs1 @ [Print NoGpusFound]"] exI [of _ "stdin s"])
           (auto simp: main_def emit_def)
    next
      case ne: False
      show ?thesis
      proof (cases gpu)
        case (Some i)
        show ?thesis
        proof (cases "find_gpu i gpus")
          case None
          with assms p e1 Inr ne Some show ?thesis
            by (intro disjI1 exI [of _ "evs1 @ [Print (GpuIndexNotFound i)]"] exI [of _ "stdin s"])
               (auto simp: main_def emit_def)
        next
          case (Some g)
          with assms p e1 Inr ne \<open>gpu = Some i\<close>
          have "engine_and_launch w g inference_args s1 = (out, s')"
            by (auto simp: main_def)
          with e1 p Inr find_gpu_Some [OF Some] show ?thesis
            by (intro disjI2 exI [of _ g] exI [of _ gpus] exI [of _ evs1] exI [of _ s1]
                exI [of _ "stdin s"]) auto
        qed
      next
        case None
        obtain r2 s2 where i: "interactive_select w gpus s1 = (r2, s2)"
          by (cases "interactive_select w gpus s1")
        from interactive_select_effect [OF i ne] obtain evs2 ins where
          e2: "s2 = s1\<lparr>stdin := ins, trace := trace s1 @ evs2\<rparr>" "list_all selection_event evs2"
              "\<forall>g. r2 = Inr g \<longrightarrow> g \<in> set gpus"
          by blast
        show ?thesis
        proof (cases r2)
          case (Inl e)
          with assms p Inr ne None i have "out = Raised e" "s' = s2"
            by (auto simp: main_def)
          then show ?thesis
            using e1 e2
            by (intro disjI1 exI [of _ "evs1 @ evs2"] exI [of _ ins]) auto
        next
          case (Inr g)
          with assms p \<open>r = Inr gpus\<close> ne None i
          have "engine_and_launch w g inference_args s2 = (out, s')"
            by (auto simp: main_def)
          with e1 e2 p \<open>r = Inr gpus\<close> Inr show ?thesis
            by (intro disjI2 exI [of _ g] exI [of _ gpus] exI [of _ "evs1 @ evs2"] exI [of _ s2]
                exI [of _ ins]) auto
        qed
      qed
    qed
  qed
qed

lemma main_run:
  obtains (quiet) evs where
      "trace (snd (main w gpu inference_args s)) = trace s @ evs"
      "list_all selection_event evs"
      "fs (snd (main w gpu inference_args s)) = fs s"
      "fst (main w gpu inference_args s) = Returned \<or> (\<exists>e. fst (main w gpu inference_args s) = Raised e)"
  | (selected) g gpus pre post where
      "trace (snd (main w gpu inference_args s)) = trace s @ pre @ Print (Selected (index g) (name g)) # post"
      "list_all selection_event pre"
      "fst (get_gpus_from_nvidia_smi w s) = Inr gpus" "g \<in> set gpus"
      "\<forall>(cmd, env) \<in> set (spawns post). env = child_env w (index g)"
      "set (inference_launches post) \<subseteq>
         {(inference_cmd w (pass_args inference_args), child_env w (index g))}"
      "engine_failed post \<longrightarrow>
         fst (main w gpu inference_args s) = SysExit 1 \<and> inference_launches post = []"
      "inference_launches post \<noteq> [] \<and> inference_starts w \<longrightarrow>
         fst (main w gpu inference_args s) = Returned"
proof -
  obtain out s' where m: "main w gpu inference_args s = (out, s')"
    by (cases "main w gpu inference_args s")
  from main_effect [OF m] consider
    (a) evs ins where "s' = s\<lparr>stdin := ins, trace := trace s @ evs\<rparr>"
      "list_all selection_event evs" "out = Returned \<or> (\<exists>e. out = Raised e)"
  | (b) g gpus evs s0 ins where "s0 = s\<lparr>stdin := ins, trace := trace s @ evs\<rparr>"
      "list_all selection_event evs" "fst (get_gpus_from_nvidia_smi w s) = Inr gpus" "g \<in> set gpus"
      "engine_and_launch w g inference_args s0 = (out, s')"
    by blast
  then show ?thesis
  proof cases
    case a
    with m show ?thesis
      by (intro quiet [of evs]) auto
  next
    case b
    from engine_and_launch_effect [OF b(5)] obtain post fs' where
      p: "s' = s0\<lparr>fs := fs', trace := trace s0 @ Print (Selected (index g) (name g)) # post\<rparr>"
         "\<forall>(cmd, env) \<in> set (spawns post). env = child_env w (index g)"
         "set (inference_launches post) \<subseteq>
             {(inference_cmd w (pass_args inference_args), child_env w (index g))}"
         "engine_failed post \<longrightarrow> out = SysExit 1 \<and> inference_launches post = []"
         "inference_launches post \<noteq> [] \<and> inference_starts w \<longrightarrow> out = Returned"
      by blast
    have "trace s' = trace s @ evs @ Print (Selected (index g) (name g)) # post"
      using p(1) b(1) by simp
    with m b(2-4) p(2-5) show ?thesis
      by (intro selected [of evs g post gpus]) simp_all
  qed
qed

subsection \<open>The host with two GPUs\<close>

lemma demo_query: "query_gpus demo_world = Inr [rtx3090, h100]"
  by (simp add: query_gpus_def demo_world_def demo_rows_def rtx3090_def h100_def strip_def
      is_space_def)

lemma demo_probe:
  "get_gpus_from_nvidia_smi demo_world s = (Inr [rtx3090, h100], emit (Probe smi_cmd) s)"
  by (simp add: get_gpus_from_nvidia_smi_def demo_query)

lemma demo_find: "find_gpu 1 [rtx3090, h100] = Some h100" "find_gpu 5 [rtx3090, h100] = None"
  by (simp_all add: find_gpu_def rtx3090_def h100_def)

lemma demo_build_run:
  "run demo_world (build_cmd demo_world) env files = (Inr 0, files(active_engine_path \<mapsto> engine0))"
  by (simp add: demo_world_def build_cmd_def demo_run_def)

lemma demo_inference_run:
  "run demo_world (inference_cmd demo_world extra_args) env files = (Inr 3, files)"
  by (simp add: demo_world_def inference_cmd_def demo_run_def BUILD_SCRIPT_def INFERENCE_SCRIPT_def)

lemma demo_manage: "manage_engine demo_world h100 demo_start = (Inr True, demo_built)"
proof -
  have n: "fs demo_start (cached_engine_path h100) = None"
    by (simp add: demo_start_def)
  show ?thesis
    unfolding manage_engine_miss [OF n demo_build_run]
    by (simp add: demo_start_def demo_built_def)
qed

lemma demo_main:
  "main demo_world (Some 1) [] demo_start =
     (Returned,
      \<lparr>fs = [active_engine_path \<mapsto> engine0, cached_engine_path h100 \<mapsto> engine0],
       stdin = [],
       trace = [Probe smi_cmd, Print (Selected 1 (py ''H100''))] @ build_events demo_world h100 @
        persist_events h100 @ launch_events demo_world 1 [py ''--acceleration'', py ''tensorrt'']\<rparr>)"
proof -
  let ?s1 = "emit (Print (Selected (index h100) (name h100))) (emit (Probe smi_cmd) demo_start)"
  have n: "fs ?s1 (cached_engine_path h100) = None"
    by (simp add: demo_start_def emit_def)
  have p: "pass_args [] = [py ''--acceleration'', py ''tensorrt'']"
    by (simp add: pass_args_def)
  show ?thesis
    by (simp add: main_def demo_probe demo_find engine_and_launch_def
        manage_engine_miss [OF n demo_build_run] run_inference_effect [OF demo_inference_run] p)
       (simp add: demo_start_def emit_def h100_def)
qed

lemma demo_start_fields: "trace demo_start = []" "fs demo_start = Map.empty" "stdin demo_start = []"
  by (simp_all add: demo_start_def)

lemma demo_main_events:
  "new_events demo_start (snd (main demo_world (Some 1) [] demo_start)) =
     [Probe smi_cmd, Print (Selected 1 (py ''H100''))] @ build_events demo_world h100 @
     persist_events h100 @ launch_events demo_world 1 [py ''--acceleration'', py ''tensorrt'']"
  by (simp add: demo_main new_events_def demo_start_fields)


lemma demo_executable: "executable demo_world = py ''python3''"
  by (simp add: demo_world_def)

lemma demo_main_launches:
  "inference_launches (new_events demo_start (snd (main demo_world (Some 1) [] demo_start))) =
     [([py ''python3'', INFERENCE_SCRIPT, py ''--acceleration'', py ''tensorrt''],
       child_env demo_world 1)]"
  by (simp add: demo_main_events build_not_inference launch_is_inference inference_launches_skip
      persist_events_def inference_cmd_def demo_executable)


lemma demo_inference_starts: "inference_starts demo_world"
  by (simp add: inference_starts_def demo_inference_run)

lemma failing_probe:
  "get_gpus_from_nvidia_smi failing_world s = (Inr [rtx3090, h100], emit (Probe smi_cmd) s)"
proof -
  have "query_gpus failing_world = query_gpus demo_world"
    by (simp add: query_gpus_def failing_world_def split: sum.splits)
  then show ?thesis
    by (simp add: get_gpus_from_nvidia_smi_def demo_query)
qed

lemma failing_run: "run failing_world cmd env files = (Inr 1, files)"
  by (simp add: failing_world_def)

lemma failing_manage:
  assumes "fs s (cached_engine_path h100) = None"
  shows "manage_engine failing_world h100 s =
    (Inr False, s\<lparr>trace := trace s @ build_events failing_world h100 @ [Print CompilationFailed]\<rparr>)"
  unfolding manage_engine_miss [OF assms failing_run] by simp

lemma failing_main:
  "main failing_world (Some 1) [] demo_start =
     (SysExit 1,
      \<lparr>fs = Map.empty, stdin = [],
       trace = [Probe smi_cmd, Print (Selected 1 (py ''H100''))] @ build_events failing_world h100 @
         [Print CompilationFailed]\<rparr>)"
proof -
  let ?s1 = "emit (Print (Selected (index h100) (name h100))) (emit (Probe smi_cmd) demo_start)"
  have n: "fs ?s1 (cached_engine_path h100) = None"
    by (simp add: demo_start_def emit_def)
  show ?thesis
    by (simp add: main_def failing_probe demo_find engine_and_launch_def failing_manage [OF n])
       (simp add: demo_start_def emit_def h100_def)
qed

lemma failing_main_events:
  "new_events demo_start (snd (main failing_world (Some 1) [] demo_start)) =
     [Probe smi_cmd, Print (Selected 1 (py ''H100''))] @ build_events failing_world h100 @
     [Print CompilationFailed]"
  by (simp add: failing_main new_events_def demo_start_fields)


section \<open>The engine cache\<close>

text \<open>
  Claim C2. Whenever \<open>manage_engine\<close> returns \<open>True\<close>, by the restore path or by the
  build-then-persist path, the file at the active path and the cache file named after
  the sanitized name of the selected device both exist and are the same file (content
  and metadata); in particular their contents are equal.
\<close>

theorem engine_ready_matches_cache:
  assumes "manage_engine w g s = (Inr True, s')"
  shows "cached_engine_path g =
           py ''./pretrained_weights/tensorrt/unet_work_'' @ get_sanitized_name (name g) @ py ''.engine''
         \<and> (\<exists>f. fs s' active_engine_path = Some f \<and> fs s' (cached_engine_path g) = Some f \<and>
               map_option content (fs s' active_engine_path) =
               map_option content (fs s' (cached_engine_path g)))"
proof (cases "fs s (cached_engine_path g)")
  case (Some f)
  from assms manage_engine_hit [OF Some, of w] active_neq_cached [of g] Some
  show ?thesis by (auto simp: cached_engine_path_eq)
next
  case None
  obtain pr fs' where r: "run w (build_cmd w) (child_env w (index g)) (fs s) = (pr, fs')"
    by (cases "run w (build_cmd w) (child_env w (index g)) (fs s)")
  from assms manage_engine_miss [OF None r] active_neq_cached [of g]
  show ?thesis by (auto simp: cached_engine_path_eq split: sum.splits if_splits option.splits)
qed

theorem engine_ready_matches_cache_witness:
  "manage_engine demo_world h100 demo_start = (Inr True, demo_built) \<and>
   fs demo_built active_engine_path = Some engine0 \<and>
   fs demo_built (cached_engine_path h100) = Some engine0"
  using engine_ready_matches_cache [OF demo_manage] demo_manage active_neq_cached [of h100]
  by (simp add: demo_built_def)



text \<open>
  Claim C7. When \<open>manage_engine\<close> finds no cache file, builds (one child, running the
  build script) and returns \<open>True\<close>, a following call on the files it left, for any
  device with the same sanitized name, in any world, finds the cache file: it returns
  \<open>True\<close> by the restore path and starts no child.
\<close>

theorem build_then_hit:
  assumes "fs s (cached_engine_path g) = None"
    and "manage_engine w g s = (Inr True, s1)"
    and "get_sanitized_name (name g') = get_sanitized_name (name g)"
    and "fs s2 = fs s1"
  shows "spawns (new_events s s1) = [(build_cmd w, child_env w (index g))] \<and>
         fst (manage_engine w' g' s2) = Inr True \<and>
         new_events s2 (snd (manage_engine w' g' s2)) = hit_events g' \<and>
         spawns (new_events s2 (snd (manage_engine w' g' s2))) = []"
proof -
  obtain pr fs' where r: "run w (build_cmd w) (child_env w (index g)) (fs s) = (pr, fs')"
    by (cases "run w (build_cmd w) (child_env w (index g)) (fs s)")
  from assms(2) obtain f where
    s1: "s1 = s\<lparr>fs := fs'(cached_engine_path g \<mapsto> f),
                trace := trace s @ build_events w g @ persist_events g\<rparr>"
    unfolding manage_engine_miss [OF assms(1) r]
    by (auto split: sum.splits if_splits option.splits)
  have p: "cached_engine_path g' = cached_engine_path g"
    using assms(3) by (simp add: cached_engine_path_eq)
  have c: "fs s2 (cached_engine_path g') = Some f"
    using assms(4) s1 p by simp
  have "spawns (new_events s s1) = [(build_cmd w, child_env w (index g))]"
    using s1 by (simp add: new_events_def build_events_spawns persist_events_def)
  then show ?thesis
    by (simp add: manage_engine_hit [OF c] new_events_def hit_events_def)
qed

theorem build_then_hit_witness:
  "fs demo_start (cached_engine_path h100) = None \<and>
   manage_engine demo_world h100 demo_start = (Inr True, demo_built) \<and>
   get_sanitized_name (name (h100\<lparr>index := 3\<rparr>)) = get_sanitized_name (name h100) \<and>
   spawns (new_events demo_start demo_built) = [(build_cmd demo_world, child_env demo_world 1)] \<and>
   fst (manage_engine failing_world (h100\<lparr>index := 3\<rparr>) demo_built) = Inr True \<and>
   spawns (new_events demo_built (snd (manage_engine failing_world (h100\<lparr>index := 3\<rparr>) demo_built))) = []"
proof -
  have n: "fs demo_start (cached_engine_path h100) = None"
    by (simp add: demo_start_def)
  have e: "get_sanitized_name (name (h100\<lparr>index := 3\<rparr>)) = get_sanitized_name (name h100)"
    by simp
  have i: "index h100 = 1"
    by (simp add: h100_def)
  show ?thesis
    using build_then_hit [OF n demo_manage e refl, of failing_world] n demo_manage i
    by (simp add: hit_events_spawns)
qed

section \<open>Sanitized names and forwarded arguments\<close>

text \<open>
  Claim C9. \<open>get_sanitized_name\<close> is a function of its argument alone (equal names give
  equal results), every code point of the result is an ASCII letter, an ASCII digit or
  the underscore, the result is as long as the name, and \<open>RTX 3090\<close> becomes
  \<open>RTX_3090\<close>.
\<close>

theorem get_sanitized_name_safe:
  "(nm1 = nm2 \<longrightarrow> get_sanitized_name nm1 = get_sanitized_name nm2) \<and>
   (\<forall>c \<in> set (get_sanitized_name nm). c \<in> {97..122} \<union> {65..90} \<union> {48..57} \<union> {95}) \<and>
   length (get_sanitized_name nm) = length nm \<and>
   get_sanitized_name (py ''RTX 3090'') = py ''RTX_3090''"
proof (intro conjI)
  show "\<forall>c \<in> set (get_sanitized_name nm). c \<in> {97..122} \<union> {65..90} \<union> {48..57} \<union> {95}"
    using sanitized_chars [of _ nm] by (auto simp: is_alnum_def)
  show "get_sanitized_name (py ''RTX 3090'') = py ''RTX_3090''"
    by (simp add: get_sanitized_name_def is_alnum_def)
qed (simp_all add: get_sanitized_name_def)

theorem get_sanitized_name_safe_witness:
  "get_sanitized_name (py ''GB10 (Blackwell)'') = py ''GB10__Blackwell_'' \<and>
   (95::nat) \<in> set (get_sanitized_name (py ''GB10 (Blackwell)'')) \<and>
   (95::nat) \<in> {97..122} \<union> {65..90} \<union> {48..57} \<union> {95} \<and>
   length (get_sanitized_name (py ''GB10 (Blackwell)'')) = 16"
  using get_sanitized_name_safe [of "py ''GB10 (Blackwell)''" "py ''GB10 (Blackwell)''"
      "py ''GB10 (Blackwell)''"]
  by (simp add: get_sanitized_name_def is_alnum_def)

text \<open>
  Claim C5. If some element of the pass-through list is exactly \<open>--acceleration\<close>, the
  list is forwarded as it is (an element that only contains the flag, such as
  \<open>--acceleration=cuda\<close>, does not count); otherwise \<open>--acceleration\<close> and \<open>tensorrt\<close>
  are appended at the end, the elements before them unchanged, and the flag then occurs
  once. Every inference child a run of \<open>main\<close> starts gets the interpreter, the
  inference script and this list.
\<close>

theorem pass_args_acceleration:
  "(py ''--acceleration'' \<in> set inference_args \<longrightarrow> pass_args inference_args = inference_args) \<and>
   (py ''--acceleration'' \<notin> set inference_args \<longrightarrow>
      pass_args inference_args = inference_args @ [py ''--acceleration'', py ''tensorrt''] \<and>
      count_list (pass_args inference_args) (py ''--acceleration'') = 1) \<and>
   pass_args [py ''--acceleration=cuda''] =
     [py ''--acceleration=cuda'', py ''--acceleration'', py ''tensorrt''] \<and>
   (\<forall>(cmd, env) \<in> set (inference_launches (new_events s (snd (main w gpu inference_args s)))).
      cmd = [executable w, INFERENCE_SCRIPT] @ pass_args inference_args)"
proof (intro conjI impI)
  assume "py ''--acceleration'' \<in> set inference_args"
  then show "pass_args inference_args = inference_args"
    by (simp add: pass_args_def)
next
  assume a: "py ''--acceleration'' \<notin> set inference_args"
  then show "pass_args inference_args = inference_args @ [py ''--acceleration'', py ''tensorrt'']"
    by (simp add: pass_args_def)
  from a have "count_list inference_args (py ''--acceleration'') = 0"
    by (simp add: count_list_0_iff)
  with a show "count_list (pass_args inference_args) (py ''--acceleration'') = 1"
    by (simp add: pass_args_def)
next
  show "pass_args [py ''--acceleration=cuda''] =
     [py ''--acceleration=cuda'', py ''--acceleration'', py ''tensorrt'']"
    by (simp add: pass_args_def)
next
  have "\<forall>(cmd, env) \<in> set (inference_launches (new_events s (snd (main w gpu inference_args s)))).
      cmd = inference_cmd w (pass_args inference_args)"
  proof (cases rule: main_run [of w gpu inference_args s])
    case (quiet evs)
    then show ?thesis
      by (simp add: new_events_append [OF quiet(1)] selection_events_quiet)
  next
    case (selected g gpus pre post)
    have "inference_launches (pre @ Print (Selected (index g) (name g)) # post) = inference_launches post"
      using selection_events_quiet [OF selected(2)] by (simp add: inference_launches_def)
    with selected(6) show ?thesis
      by (auto simp: new_events_append [OF selected(1)])
  qed
  then show "\<forall>(cmd, env) \<in> set (inference_launches (new_events s (snd (main w gpu inference_args s)))).
      cmd = [executable w, INFERENCE_SCRIPT] @ pass_args inference_args"
    by (simp add: inference_cmd_def)
qed

theorem pass_args_acceleration_witness:
  "py ''--acceleration'' \<in> set [py ''--port'', py ''--acceleration'', py ''xformers''] \<and>
   pass_args [py ''--port'', py ''--acceleration'', py ''xformers''] =
     [py ''--port'', py ''--acceleration'', py ''xformers''] \<and>
   py ''--acceleration'' \<notin> set [py ''--port''] \<and>
   pass_args [py ''--port''] = [py ''--port'', py ''--acceleration'', py ''tensorrt''] \<and>
   inference_launches (new_events demo_start (snd (main demo_world (Some 1) [] demo_start))) =
     [([py ''python3'', INFERENCE_SCRIPT, py ''--acceleration'', py ''tensorrt''],
       child_env demo_world 1)]"
proof -
  note demo_main_launches
  then show ?thesis
    using pass_args_acceleration
        [where inference_args = "[py ''--port'', py ''--acceleration'', py ''xformers'']"
          and w = demo_world and s = demo_start and gpu = "Some 1"]
      pass_args_acceleration
        [where inference_args = "[py ''--port'']" and w = demo_world and s = demo_start
          and gpu = "Some 1"]
      pass_args_acceleration
        [where inference_args = "[]" and w = demo_world and s = demo_start and gpu = "Some 1"]
    by (simp add: pass_args_def)
qed

section \<open>The probe\<close>



section \<open>The orchestrator\<close>

text \<open>
  Claim C1, as the code has it. When the index given with \<open>--gpu\<close> is the index of no
  probed device, \<open>main\<close> prints one diagnostic after the probe (the index-not-found
  error, or the no-GPUs message when the probe returned no device), changes no file,
  starts no child and copies nothing, and returns: the exit status is 0.
\<close>

theorem explicit_index_absent:
  assumes "get_gpus_from_nvidia_smi w s = (Inr gpus, s1)"
    and "\<forall>g \<in> set gpus. index g \<noteq> i"
  shows "main w (Some i) inference_args s =
           (Returned, emit (Print (if gpus = [] then NoGpusFound else GpuIndexNotFound i)) s1) \<and>
         fs (snd (main w (Some i) inference_args s)) = fs s \<and>
         spawns (new_events s (snd (main w (Some i) inference_args s))) = [] \<and>
         copies (new_events s (snd (main w (Some i) inference_args s))) = [] \<and>
         exit_status (fst (main w (Some i) inference_args s)) = 0"
proof -
  from assms(2) have n: "find_gpu i gpus = None"
    by (simp add: find_gpu_None)
  with assms(1) have m: "main w (Some i) inference_args s =
      (Returned, emit (Print (if gpus = [] then NoGpusFound else GpuIndexNotFound i)) s1)"
    by (simp add: main_def)
  from probe_effect [OF assms(1)] obtain evs where
    e: "s1 = s\<lparr>trace := trace s @ evs\<rparr>" "list_all selection_event evs"
    by blast
  let ?d = "Print (if gpus = [] then NoGpusFound else GpuIndexNotFound i)"
  have "list_all selection_event (evs @ [?d])"
    using e(2) by simp
  from selection_events_quiet [OF this]
  have q: "spawns (evs @ [?d]) = []" "copies (evs @ [?d]) = []"
    by simp_all
  have t: "trace (snd (main w (Some i) inference_args s)) = trace s @ evs @ [?d]"
    using m e(1) by (simp add: emit_def)
  have f: "fs (snd (main w (Some i) inference_args s)) = fs s"
    using m e(1) by (simp add: emit_def)
  have n: "spawns (new_events s (snd (main w (Some i) inference_args s))) = []"
      "copies (new_events s (snd (main w (Some i) inference_args s))) = []"
    unfolding new_events_append [OF t] by (rule q)+
  have x: "exit_status (fst (main w (Some i) inference_args s)) = 0"
    by (simp add: m)
  from m f n x show ?thesis by blast
qed

theorem explicit_index_absent_witness:
  "get_gpus_from_nvidia_smi demo_world demo_start =
     (Inr [rtx3090, h100], emit (Probe smi_cmd) demo_start) \<and>
   index rtx3090 \<noteq> 5 \<and> index h100 \<noteq> 5 \<and>
   main demo_world (Some 5) [] demo_start =
     (Returned, \<lparr>fs = Map.empty, stdin = [],
        trace = [Probe smi_cmd, Print (GpuIndexNotFound 5)]\<rparr>) \<and>
   spawns (new_events demo_start (snd (main demo_world (Some 5) [] demo_start))) = [] \<and>
   copies (new_events demo_start (snd (main demo_world (Some 5) [] demo_start))) = [] \<and>
   exit_status (fst (main demo_world (Some 5) [] demo_start)) = 0"
proof -
  have i: "\<forall>g \<in> set [rtx3090, h100]. index g \<noteq> 5"
    by (simp add: rtx3090_def h100_def)
  have "emit (Print (GpuIndexNotFound 5)) (emit (Probe smi_cmd) demo_start) =
      \<lparr>fs = Map.empty, stdin = [], trace = [Probe smi_cmd, Print (GpuIndexNotFound 5)]\<rparr>"
    by (simp add: emit_def demo_start_def)
  with explicit_index_absent [OF demo_probe [of demo_start] i, where inference_args = "[]"] i
  show ?thesis
    by (simp add: demo_probe new_events_def demo_start_fields)
qed

text \<open>The claim as the specification states it fails: with the devices 0 and 1 probed
  and \<open>--gpu 5\<close>, the exit status is 0.\<close>

theorem explicit_index_absent_counterexample:
  "fst (get_gpus_from_nvidia_smi demo_world demo_start) = Inr [rtx3090, h100] \<and>
   find_gpu 5 [rtx3090, h100] = None \<and>
   exit_status (fst (main demo_world (Some 5) [] demo_start)) = 0"
  by (simp add: main_def demo_probe demo_find)

text \<open>
  Claim C4. \<open>manage_engine\<close> returns \<open>False\<close> exactly when it prints one of its two
  failure messages (the build exited with a non-zero code, or it exited with 0 and the
  active path is absent). When it returns \<open>False\<close> for the selected device, lines
  148-160 end with \<open>sys.exit(1)\<close> and no inference child is started; and in every run
  of \<open>main\<close> in which the engine step fails, the exit status is 1 and no inference
  child is started.
\<close>

theorem failed_engine_aborts:
  "(fst (manage_engine w g s) = Inr False \<longleftrightarrow>
      engine_failed (new_events s (snd (manage_engine w g s)))) \<and>
   (fst (manage_engine w g (emit (Print (Selected (index g) (name g))) s)) = Inr False \<longrightarrow>
      fst (engine_and_launch w g inference_args s) = SysExit 1 \<and>
      exit_status (fst (engine_and_launch w g inference_args s)) \<noteq> 0 \<and>
      inference_launches (new_events s (snd (engine_and_launch w g inference_args s))) = []) \<and>
   (engine_failed (new_events s (snd (main w gpu inference_args s))) \<longrightarrow>
      exit_status (fst (main w gpu inference_args s)) = 1 \<and>
      inference_launches (new_events s (snd (main w gpu inference_args s))) = [])"
proof (intro conjI impI)
  obtain r s' where m: "manage_engine w g s = (r, s')"
    by (cases "manage_engine w g s")
  from manage_engine_effect [OF m] obtain evs fs' where
    "s' = s\<lparr>fs := fs', trace := trace s @ evs\<rparr>" "engine_failed evs \<longleftrightarrow> r = Inr False"
    by blast
  with m show "fst (manage_engine w g s) = Inr False \<longleftrightarrow>
      engine_failed (new_events s (snd (manage_engine w g s)))"
    by (simp add: new_events_def)
next
  let ?s1 = "emit (Print (Selected (index g) (name g))) s"
  assume f: "fst (manage_engine w g ?s1) = Inr False"
  obtain s2 where m: "manage_engine w g ?s1 = (Inr False, s2)"
    using f by (cases "manage_engine w g ?s1") simp
  from manage_engine_effect [OF m] obtain evs fs' where
    e: "s2 = ?s1\<lparr>fs := fs', trace := trace ?s1 @ evs\<rparr>" "inference_launches evs = []"
    by blast
  have r: "engine_and_launch w g inference_args s = (SysExit 1, s2)"
    using m by (simp add: engine_and_launch_def)
  then show "fst (engine_and_launch w g inference_args s) = SysExit 1"
    and "exit_status (fst (engine_and_launch w g inference_args s)) \<noteq> 0"
    by simp_all
  show "inference_launches (new_events s (snd (engine_and_launch w g inference_args s))) = []"
    using r e by (simp add: new_events_def emit_def inference_launches_skip)
next
  assume f: "engine_failed (new_events s (snd (main w gpu inference_args s)))"
  have "exit_status (fst (main w gpu inference_args s)) = 1 \<and>
      inference_launches (new_events s (snd (main w gpu inference_args s))) = []"
  proof (cases rule: main_run [of w gpu inference_args s])
    case (quiet evs)
    with f selection_events_quiet [OF quiet(2)] show ?thesis
      by (simp add: new_events_append [OF quiet(1)])
  next
    case (selected g gpus pre post)
    from f have "engine_failed post"
      using selection_events_quiet [OF selected(2)]
      by (simp add: new_events_append [OF selected(1)])
    with selected(7) selection_events_quiet [OF selected(2)] show ?thesis
      by (simp add: new_events_append [OF selected(1)] inference_launches_skip)
  qed
  then show "exit_status (fst (main w gpu inference_args s)) = 1"
    and "inference_launches (new_events s (snd (main w gpu inference_args s))) = []"
    by simp_all
qed

theorem failed_engine_aborts_witness:
  "fst (manage_engine failing_world h100 demo_start) = Inr False \<and>
   engine_failed (new_events demo_start (snd (manage_engine failing_world h100 demo_start))) \<and>
   fst (manage_engine failing_world h100
     (emit (Print (Selected (index h100) (name h100))) demo_start)) = Inr False \<and>
   fst (engine_and_launch failing_world h100 [] demo_start) = SysExit 1 \<and>
   engine_failed (new_events demo_start (snd (main failing_world (Some 1) [] demo_start))) \<and>
   exit_status (fst (main failing_world (Some 1) [] demo_start)) = 1 \<and>
   inference_launches (new_events demo_start (snd (main failing_world (Some 1) [] demo_start))) = []"
proof -
  have n: "fs demo_start (cached_engine_path h100) = None"
    "fs (emit (Print (Selected (index h100) (name h100))) demo_start) (cached_engine_path h100) = None"
    by (simp_all add: demo_start_def emit_def)
  have "engine_failed (new_events demo_start (snd (main failing_world (Some 1) [] demo_start)))"
    by (simp add: failing_main_events build_events_not_failed)
  then show ?thesis
    using failed_engine_aborts
        [where w = failing_world and g = h100 and s = demo_start and gpu = "Some 1"
          and inference_args = "[]"]
    by (simp add: failing_manage [OF n(1)] failing_manage [OF n(2)])
qed

text \<open>
  Claim C10. \<open>run_inference\<close> returns normally whatever the exit code of the inference
  child, and when the operator interrupts the wait. So, in a world where the inference
  child ends in one of these two ways, every run of \<open>main\<close> that starts the inference
  child returns from \<open>main\<close>: the exit status is 0, also when the child failed.
\<close>

theorem inference_status_ignored:
  "(fst (run w (inference_cmd w extra_args) (child_env w i) (fs s)) = Inr rc \<longrightarrow>
      fst (run_inference w i extra_args s) = Inr ()) \<and>
   (fst (run w (inference_cmd w extra_args) (child_env w i) (fs s)) = Inl KeyboardInterrupt \<longrightarrow>
      fst (run_inference w i extra_args s) = Inr ()) \<and>
   (inference_starts w \<and>
    inference_launches (new_events s (snd (main w gpu inference_args s))) \<noteq> [] \<longrightarrow>
      fst (main w gpu inference_args s) = Returned \<and>
      exit_status (fst (main w gpu inference_args s)) = 0)"
proof (intro conjI impI)
  obtain pr fs' where r: "run w (inference_cmd w extra_args) (child_env w i) (fs s) = (pr, fs')"
    by (cases "run w (inference_cmd w extra_args) (child_env w i) (fs s)")
  show "fst (run_inference w i extra_args s) = Inr ()"
    if "fst (run w (inference_cmd w extra_args) (child_env w i) (fs s)) = Inr rc"
    using that r by (simp add: run_inference_effect [OF r])
  show "fst (run_inference w i extra_args s) = Inr ()"
    if "fst (run w (inference_cmd w extra_args) (child_env w i) (fs s)) = Inl KeyboardInterrupt"
    using that r by (simp add: run_inference_effect [OF r])
next
  assume a: "inference_starts w \<and>
    inference_launches (new_events s (snd (main w gpu inference_args s))) \<noteq> []"
  have "fst (main w gpu inference_args s) = Returned"
  proof (cases rule: main_run [of w gpu inference_args s])
    case (quiet evs)
    with a selection_events_quiet [OF quiet(2)] show ?thesis
      by (simp add: new_events_append [OF quiet(1)])
  next
    case (selected g gpus pre post)
    from a have "inference_launches post \<noteq> []"
      using selection_events_quiet [OF selected(2)]
      by (simp add: new_events_append [OF selected(1)] inference_launches_skip)
    with selected(8) a show ?thesis by simp
  qed
  then show "fst (main w gpu inference_args s) = Returned"
    and "exit_status (fst (main w gpu inference_args s)) = 0"
    by simp_all
qed

theorem inference_status_ignored_witness:
  "fst (run demo_world (inference_cmd demo_world []) (child_env demo_world 1) (fs demo_built)) = Inr 3 \<and>
   fst (run_inference demo_world 1 [] demo_built) = Inr () \<and>
   fst (run interrupted_world (inference_cmd interrupted_world []) (child_env interrupted_world 1)
          (fs demo_built)) = Inl KeyboardInterrupt \<and>
   fst (run_inference interrupted_world 1 [] demo_built) = Inr () \<and>
   inference_starts demo_world \<and>
   inference_launches (new_events demo_start (snd (main demo_world (Some 1) [] demo_start))) =
     [([py ''python3'', INFERENCE_SCRIPT, py ''--acceleration'', py ''tensorrt''],
       child_env demo_world 1)] \<and>
   exit_status (fst (main demo_world (Some 1) [] demo_start)) = 0"
proof -
  have i: "fst (run interrupted_world (inference_cmd interrupted_world [])
      (child_env interrupted_world 1) (fs demo_built)) = Inl KeyboardInterrupt"
    by (simp add: interrupted_world_def)
  show ?thesis
    using inference_status_ignored
        [where w = demo_world and extra_args = "[]" and i = 1 and s = demo_built and rc = 3]
      inference_status_ignored
        [where w = interrupted_world and extra_args = "[]" and i = 1 and s = demo_built]
      inference_status_ignored
        [where w = demo_world and s = demo_start and gpu = "Some 1" and inference_args = "[]"]
      i demo_inference_starts demo_main_launches
    by (simp add: demo_inference_run)
qed



end
